theory Spec2Isabelle
  imports Complex_Main "HOL-Library.Log_Nat"
begin

section \<open>Values and objects\<close>

text \<open>
  The service of \<^verbatim>\<open>src/index.ts\<close> handles JavaScript values: the parsed JSON body of a
  request, the \<^verbatim>\<open>Date\<close> objects made by \<^verbatim>\<open>getCurrentDate\<close>, and the
  documents built from both. A finite \<^verbatim>\<open>Number\<close> is the rational it denotes; a
  \<^verbatim>\<open>Date\<close> is its time value in milliseconds, \<open>None\<close> for an invalid date. An object is
  the map from its own property names to their values.
\<close>

datatype jsval =
    JUndefined
  | JNull
  | JBool bool
  | JNum rat
  | JStr string
  | JDate "int option"
  | JArr "jsval list"
  | JObj "string \<Rightarrow> jsval option"

type_synonym obj = "string \<Rightarrow> jsval option"

text \<open>Reading a property, \<^verbatim>\<open>o.k\<close>: the value, or \<^verbatim>\<open>undefined\<close> when the object has none.\<close>

definition get_prop :: "obj \<Rightarrow> string \<Rightarrow> jsval" where
  "get_prop ob k = (case ob k of None \<Rightarrow> JUndefined | Some v \<Rightarrow> v)"

text \<open>
  Object spread inside a literal, \<^verbatim>\<open>{ ...target, ...source }\<close>: every own property of the source
  is written over the properties collected so far.
\<close>

definition spread :: "obj \<Rightarrow> obj \<Rightarrow> obj" where
  "spread source target = target ++ source"

section \<open>The clock: \<^verbatim>\<open>getCurrentDate\<close>\<close>

text \<open>
  \<^verbatim>\<open>time()\<close> gives the nanoseconds since the epoch as a \<^verbatim>\<open>bigint\<close>, an integer from 0 up to
  \<open>2 ^ 64\<close>.
  \<^verbatim>\<open>new Number(time())\<close> converts it to a double, \<^verbatim>\<open>/ 1000_000\<close> is the division of
  doubles, and \<^verbatim>\<open>new Date(v)\<close> clips \<open>v\<close> to a time value: an integer number of
  milliseconds, truncated towards zero, invalid beyond 8.64e15 in magnitude.

  The doubles are modelled by the rationals they denote. \<open>to_double\<close> is rounding to the
  nearest double, ties to even, for a non-negative rational in the range of the normal doubles
  (from \<open>2 powi (-1022)\<close> up to \<open>2 ^ 1024\<close>, which covers every 64-bit clock reading and
  its quotient by a million).
\<close>

definition floor_log2 :: "rat \<Rightarrow> int" where
  "floor_log2 x = (if 1 \<le> x then bitlen \<lfloor>x\<rfloor> - 1 else - bitlen (\<lceil>1 / x\<rceil> - 1))"

definition round_ties_even :: "rat \<Rightarrow> int" where
  "round_ties_even x =
     (let f = \<lfloor>x\<rfloor>; r = x - of_int f
      in if r < 1 / 2 then f else if 1 / 2 < r then f + 1 else if even f then f else f + 1)"

definition to_double :: "rat \<Rightarrow> rat" where
  "to_double x =
     (if x = 0 then 0
      else let e = floor_log2 x - 52
           in of_int (round_ties_even (x / 2 powi e)) * 2 powi e)"

text \<open>\<^verbatim>\<open>Number(n)\<close> for a \<^verbatim>\<open>bigint\<close> \<open>n\<close>, and the division of two doubles.\<close>

definition Number_of_bigint :: "int \<Rightarrow> rat" where
  "Number_of_bigint n = to_double (of_int n)"

definition double_div :: "rat \<Rightarrow> rat \<Rightarrow> rat" where
  "double_div a b = to_double (a / b)"

text \<open>\<^verbatim>\<open>new Date(v)\<close> for a finite number \<open>v\<close>: the time clip of the language standard.\<close>

definition new_Date :: "rat \<Rightarrow> jsval" where
  "new_Date v =
     (if 8640000000000000 < \<bar>v\<bar> then JDate None
      else JDate (Some (if 0 \<le> v then \<lfloor>v\<rfloor> else \<lceil>v\<rceil>)))"

text \<open>
  \<^verbatim>\<open>function getCurrentDate() { const timestamp = new Number(time());
    return new Date(timestamp.valueOf() / 1000_000); }\<close>
  with the reading of the clock as its argument.
\<close>

definition getCurrentDate :: "int \<Rightarrow> jsval" where
  "getCurrentDate clock = new_Date (double_div (Number_of_bigint clock) 1000000)"

section \<open>The store and the responses\<close>

text \<open>
  \<^verbatim>\<open>docStorage\<close> is a \<^verbatim>\<open>StableBTreeMap\<close> of the \<^verbatim>\<open>azle\<close> library, taken here as the
  map its interface describes: \<^verbatim>\<open>insert\<close>, \<^verbatim>\<open>get\<close> and \<^verbatim>\<open>remove\<close> on one key leave
  every other key alone, and a value read back is the value written. The handlers pass
  \<^verbatim>\<open>document.id\<close> as the key, whatever value that property holds, so keys are values; the
  \<^verbatim>\<open>:id\<close> of a request path is always a string.
\<close>

type_synonym store = "jsval \<Rightarrow> obj option"

definition storage_insert :: "jsval \<Rightarrow> obj \<Rightarrow> store \<Rightarrow> store" where
  "storage_insert k v st = st(k \<mapsto> v)"

definition storage_get :: "jsval \<Rightarrow> store \<Rightarrow> obj option" where
  "storage_get k st = st k"

definition storage_remove :: "jsval \<Rightarrow> store \<Rightarrow> store \<times> obj option" where
  "storage_remove k st = (st(k := None), st k)"

text \<open>
  \<^verbatim>\<open>res.json(o)\<close> answers with status 200 unless \<^verbatim>\<open>res.status\<close> was called;
  \<^verbatim>\<open>res.status(n).send(text)\<close> answers with a plain text.
\<close>

datatype response = Json nat obj | Send nat string

section \<open>The route handlers\<close>

text \<open>
  Each handler takes what the request brings (path id, body), what the collaborators return
  during the call (the identifier of \<^verbatim>\<open>uuidv4()\<close>, the reading of \<^verbatim>\<open>time()\<close>) and the
  store, and returns the store after the call with the response.
\<close>

text \<open>\<^verbatim>\<open>app.post("/documents", ...)\<close>\<close>

definition post_documents :: "string \<Rightarrow> int \<Rightarrow> obj \<Rightarrow> store \<Rightarrow> store \<times> response" where
  "post_documents uuid clock body st =
     (let document =
            spread body
              [''id'' \<mapsto> JStr uuid,
               ''createdAt'' \<mapsto> getCurrentDate clock,
               ''updatedAt'' \<mapsto> JNull,
               ''status'' \<mapsto> JStr ''pending'']
      in (storage_insert (get_prop document ''id'') document st, Json 200 document))"

text \<open>\<^verbatim>\<open>app.get("/documents/:id", ...)\<close>\<close>

definition get_documents_id :: "string \<Rightarrow> store \<Rightarrow> store \<times> response" where
  "get_documents_id documentId st =
     (case storage_get (JStr documentId) st of
        None \<Rightarrow> (st, Send 404 (''Document with id='' @ documentId @ '' not found.''))
      | Some documentOpt \<Rightarrow> (st, Json 200 documentOpt))"

text \<open>\<^verbatim>\<open>app.put("/documents/:id", ...)\<close>\<close>

definition put_documents_id :: "string \<Rightarrow> int \<Rightarrow> obj \<Rightarrow> store \<Rightarrow> store \<times> response" where
  "put_documents_id documentId clock body st =
     (case storage_get (JStr documentId) st of
        None \<Rightarrow>
          (st, Send 400 (''Couldn't update document with id='' @ documentId @ ''. Not found.''))
      | Some document \<Rightarrow>
          (let updatedDocument =
                 (spread body (spread document Map.empty))(''updatedAt'' \<mapsto> getCurrentDate clock)
           in (storage_insert (get_prop document ''id'') updatedDocument st,
               Json 200 updatedDocument)))"

text \<open>\<^verbatim>\<open>app.delete("/documents/:id", ...)\<close>\<close>

definition delete_documents_id :: "string \<Rightarrow> store \<Rightarrow> store \<times> response" where
  "delete_documents_id documentId st =
     (case storage_remove (JStr documentId) st of
        (st', None) \<Rightarrow>
          (st', Send 400 (''Couldn't delete document with id='' @ documentId @ ''. Not found.''))
      | (st', Some deletedDocument) \<Rightarrow> (st', Json 200 deletedDocument))"

section \<open>Sequences of requests\<close>

text \<open>
  The requests that reach the store, each with what the collaborators returned while it was
  handled. \<^verbatim>\<open>GET /documents\<close> only reads \<^verbatim>\<open>docStorage.values()\<close> and is left out.
\<close>

datatype request =
    POST_documents string int obj
  | GET_documents_id string
  | PUT_documents_id string int obj
  | DELETE_documents_id string

fun handle :: "request \<Rightarrow> store \<Rightarrow> store \<times> response" where
  "handle (POST_documents uuid clock body) st = post_documents uuid clock body st"
| "handle (GET_documents_id documentId) st = get_documents_id documentId st"
| "handle (PUT_documents_id documentId clock body) st = put_documents_id documentId clock body st"
| "handle (DELETE_documents_id documentId) st = delete_documents_id documentId st"

text \<open>The store after a sequence of requests, handled one after the other.\<close>

fun run :: "request list \<Rightarrow> store \<Rightarrow> store" where
  "run [] st = st"
| "run (r # rs) st = run rs (fst (handle r st))"

text \<open>The identifiers \<^verbatim>\<open>uuidv4()\<close> returned during a sequence of requests.\<close>

fun uuids :: "request list \<Rightarrow> string list" where
  "uuids [] = []"
| "uuids (POST_documents uuid clock body # rs) = uuid # uuids rs"
| "uuids (r # rs) = uuids rs"

text \<open>The body of the request, if it has one, has no property \<open>k\<close>.\<close>

fun body_lacks :: "string \<Rightarrow> request \<Rightarrow> bool" where
  "body_lacks k (POST_documents uuid clock body) = (body k = None)"
| "body_lacks k (PUT_documents_id documentId clock body) = (body k = None)"
| "body_lacks k r = True"

text \<open>The body of an update has no property \<open>k\<close>; other requests are not constrained.\<close>

fun update_lacks :: "string \<Rightarrow> request \<Rightarrow> bool" where
  "update_lacks k (PUT_documents_id documentId clock body) = (body k = None)"
| "update_lacks k r = True"

text \<open>Every stored record carries, as its \<^verbatim>\<open>id\<close>, the key it is stored under.\<close>

definition keyed_by_id :: "store \<Rightarrow> bool" where
  "keyed_by_id st = (\<forall>k d. st k = Some d \<longrightarrow> get_prop d ''id'' = k)"

text \<open>
  Two stores used as examples: the store after one \<^verbatim>\<open>POST /documents\<close> with an empty body
  (the generator returning \<open>u1\<close>), and that store after \<^verbatim>\<open>PUT /documents/u1\<close> with the body
  \<^verbatim>\<open>{"id": "b"}\<close>.
\<close>

definition store_created :: store where
  "store_created = fst (post_documents ''u1'' 0 Map.empty Map.empty)"

definition store_renamed :: store where
  "store_renamed = fst (put_documents_id ''u1'' 0 [''id'' \<mapsto> JStr ''b''] store_created)"

section \<open>Basic facts\<close>

lemmas handler_defs = post_documents_def get_documents_id_def put_documents_id_def
  delete_documents_id_def storage_insert_def storage_get_def storage_remove_def spread_def
  get_prop_def

lemma getCurrentDate_0: "getCurrentDate 0 = JDate (Some 0)"
  by (simp add: getCurrentDate_def new_Date_def double_div_def Number_of_bigint_def to_double_def)

lemma store_created_u1:
  "store_created (JStr ''u1'') =
     Some [''id'' \<mapsto> JStr ''u1'', ''createdAt'' \<mapsto> JDate (Some 0),
           ''updatedAt'' \<mapsto> JNull, ''status'' \<mapsto> JStr ''pending'']"
  by (simp add: store_created_def handler_defs getCurrentDate_0 Let_def)

section \<open>Create: the default status\<close>

text \<open>
  Claim C4. A create request whose body has no \<^verbatim>\<open>status\<close> stores a record whose status is
  \<^verbatim>\<open>"pending"\<close>; when the body has a \<^verbatim>\<open>status\<close>, the stored record has the caller's value,
  since the body is spread over the generated defaults. The record is stored under its own
  \<^verbatim>\<open>id\<close> and is the response.
\<close>

theorem post_documents_status:
  "\<exists>document. post_documents uuid clock body st
        = (st(get_prop document ''id'' \<mapsto> document), Json 200 document)
     \<and> (body ''status'' = None \<longrightarrow> get_prop document ''status'' = JStr ''pending'')
     \<and> (\<forall>v. body ''status'' = Some v \<longrightarrow> get_prop document ''status'' = v)"
  by (simp add: handler_defs Let_def map_add_def split: option.split)

theorem post_documents_status_witness:
  "(\<exists>document. post_documents ''u1'' 0 [''name'' \<mapsto> JStr ''A''] Map.empty
        = ([get_prop document ''id'' \<mapsto> document], Json 200 document)
      \<and> get_prop document ''status'' = JStr ''pending'')
   \<and> (\<exists>document. post_documents ''u1'' 0 [''status'' \<mapsto> JStr ''legalized''] Map.empty
        = ([get_prop document ''id'' \<mapsto> document], Json 200 document)
      \<and> get_prop document ''status'' = JStr ''legalized'')"
  using post_documents_status [of "''u1''" 0 "[''name'' \<mapsto> JStr ''A'']" Map.empty]
    post_documents_status [of "''u1''" 0 "[''status'' \<mapsto> JStr ''legalized'']" Map.empty]
  by simp

section \<open>Create, then get\<close>

text \<open>
  Claim C5, as amended. A create request answers with the record it stored, and a get by the
  \<^verbatim>\<open>id\<close> of that response, right after, answers with the same record. Its \<^verbatim>\<open>updatedAt\<close> is
  \<^verbatim>\<open>null\<close> when the body has no \<^verbatim>\<open>updatedAt\<close> and the body's value when it has one, and
  its \<^verbatim>\<open>id\<close> is the generated identifier when the body has no \<^verbatim>\<open>id\<close>.
\<close>

theorem create_then_get:
  "\<exists>document st'.
       post_documents uuid clock body st = (st', Json 200 document)
     \<and> (\<forall>documentId. get_prop document ''id'' = JStr documentId \<longrightarrow>
            get_documents_id documentId st' = (st', Json 200 document))
     \<and> (body ''updatedAt'' = None \<longrightarrow> get_prop document ''updatedAt'' = JNull)
     \<and> (\<forall>v. body ''updatedAt'' = Some v \<longrightarrow> get_prop document ''updatedAt'' = v)
     \<and> (body ''id'' = None \<longrightarrow> get_prop document ''id'' = JStr uuid)"
  by (simp add: handler_defs Let_def map_add_def)

theorem create_then_get_witness:
  "(\<exists>document st'.
       post_documents ''u1'' 0 [''name'' \<mapsto> JStr ''A'', ''hash'' \<mapsto> JStr ''h1'',
           ''owner'' \<mapsto> JStr ''o1''] Map.empty = (st', Json 200 document)
     \<and> get_documents_id ''u1'' st' = (st', Json 200 document)
     \<and> get_prop document ''updatedAt'' = JNull
     \<and> get_prop document ''id'' = JStr ''u1'')
   \<and> (\<exists>document st'.
       post_documents ''u2'' 0 [''updatedAt'' \<mapsto> JNum 7] store_created
         = (st', Json 200 document)
     \<and> get_documents_id ''u2'' st' = (st', Json 200 document)
     \<and> get_prop document ''updatedAt'' = JNum 7
     \<and> get_prop document ''id'' = JStr ''u2'')"
proof -
  have a: "\<exists>document st'.
       post_documents ''u1'' 0 [''name'' \<mapsto> JStr ''A'', ''hash'' \<mapsto> JStr ''h1'',
           ''owner'' \<mapsto> JStr ''o1''] Map.empty = (st', Json 200 document)
     \<and> get_documents_id ''u1'' st' = (st', Json 200 document)
     \<and> get_prop document ''updatedAt'' = JNull
     \<and> get_prop document ''id'' = JStr ''u1''"
  proof -
    from create_then_get [of "''u1''" 0 "[''name'' \<mapsto> JStr ''A'', ''hash'' \<mapsto> JStr ''h1'',
           ''owner'' \<mapsto> JStr ''o1'']" Map.empty]
    obtain document st' where
      1: "post_documents ''u1'' 0 [''name'' \<mapsto> JStr ''A'', ''hash'' \<mapsto> JStr ''h1'',
           ''owner'' \<mapsto> JStr ''o1''] Map.empty = (st', Json 200 document)"
      and 2: "\<forall>documentId. get_prop document ''id'' = JStr documentId \<longrightarrow>
            get_documents_id documentId st' = (st', Json 200 document)"
      and 3: "get_prop document ''updatedAt'' = JNull"
      and 4: "get_prop document ''id'' = JStr ''u1''"
      by (elim exE conjE) simp
    from 2 4 have "get_documents_id ''u1'' st' = (st', Json 200 document)" by simp
    with 1 3 4 show ?thesis by (intro exI conjI)
  qed
  have b: "\<exists>document st'.
       post_documents ''u2'' 0 [''updatedAt'' \<mapsto> JNum 7] store_created
         = (st', Json 200 document)
     \<and> get_documents_id ''u2'' st' = (st', Json 200 document)
     \<and> get_prop document ''updatedAt'' = JNum 7
     \<and> get_prop document ''id'' = JStr ''u2''"
  proof -
    from create_then_get [of "''u2''" 0 "[''updatedAt'' \<mapsto> JNum 7]" store_created]
    obtain document st' where
      1: "post_documents ''u2'' 0 [''updatedAt'' \<mapsto> JNum 7] store_created
            = (st', Json 200 document)"
      and 2: "\<forall>documentId. get_prop document ''id'' = JStr documentId \<longrightarrow>
            get_documents_id documentId st' = (st', Json 200 document)"
      and 3: "get_prop document ''updatedAt'' = JNum 7"
      and 4: "get_prop document ''id'' = JStr ''u2''"
      by (elim exE conjE) simp
    from 2 4 have "get_documents_id ''u2'' st' = (st', Json 200 document)" by simp
    with 1 3 4 show ?thesis by (intro exI conjI)
  qed
  from a b show ?thesis by (intro conjI)
qed

theorem post_keeps_supplied_updatedAt:
  "snd (get_documents_id ''u1''
          (fst (post_documents ''u1'' 0 [''updatedAt'' \<mapsto> JStr ''2020''] Map.empty)))
     = snd (post_documents ''u1'' 0 [''updatedAt'' \<mapsto> JStr ''2020''] Map.empty)
   \<and> snd (post_documents ''u1'' 0 [''updatedAt'' \<mapsto> JStr ''2020''] Map.empty)
     = Json 200 [''id'' \<mapsto> JStr ''u1'', ''createdAt'' \<mapsto> JDate (Some 0),
                 ''updatedAt'' \<mapsto> JStr ''2020'', ''status'' \<mapsto> JStr ''pending'']
   \<and> get_prop [''id'' \<mapsto> JStr ''u1'', ''createdAt'' \<mapsto> JDate (Some 0),
                 ''updatedAt'' \<mapsto> JStr ''2020'', ''status'' \<mapsto> JStr ''pending''] ''updatedAt''
     = JStr ''2020''"
  apply (simp add: handler_defs getCurrentDate_0 Let_def)
  apply (auto simp add: map_add_def fun_eq_iff)
  done

section \<open>Update\<close>

text \<open>
  Claim C7. An update on an id that has no record answers 400 with the not-found text, and
  the store after the call is the store before it.
\<close>

theorem put_documents_id_not_found:
  assumes "st (JStr documentId) = None"
  shows "put_documents_id documentId clock body st
     = (st, Send 400 (''Couldn't update document with id='' @ documentId @ ''. Not found.''))"
  using assms by (simp add: handler_defs)

theorem put_documents_id_not_found_witness:
  "store_created (JStr ''u2'') = None
   \<and> put_documents_id ''u2'' 0 [''status'' \<mapsto> JStr ''authenticated''] store_created
     = (store_created, Send 400 ''Couldn't update document with id=u2. Not found.'')"
proof -
  have h: "store_created (JStr ''u2'') = None"
    by (simp add: store_created_def handler_defs Let_def)
  from put_documents_id_not_found
      [of store_created "''u2''" 0 "[''status'' \<mapsto> JStr ''authenticated'']"] h
  show ?thesis by simp
qed

text \<open>
  Claim C6. On an existing record, the same update body applied twice in a row gives two
  responses that agree on every field except \<^verbatim>\<open>updatedAt\<close>, which holds the date of
  each call.
\<close>

theorem put_documents_id_twice:
  assumes "st (JStr documentId) = Some document"
  shows "\<exists>st1 r1 st2 r2.
           put_documents_id documentId clock1 body st = (st1, Json 200 r1)
         \<and> put_documents_id documentId clock2 body st1 = (st2, Json 200 r2)
         \<and> (\<forall>k. k \<noteq> ''updatedAt'' \<longrightarrow> r1 k = r2 k)
         \<and> r1 ''updatedAt'' = Some (getCurrentDate clock1)
         \<and> r2 ''updatedAt'' = Some (getCurrentDate clock2)"
  using assms by (auto simp add: handler_defs Let_def map_add_def split: option.splits)

theorem put_documents_id_twice_witness:
  "\<exists>st1 r1 st2 r2.
       put_documents_id ''u1'' 0 [''status'' \<mapsto> JStr ''authenticated''] store_created
         = (st1, Json 200 r1)
     \<and> put_documents_id ''u1'' 1000000 [''status'' \<mapsto> JStr ''authenticated''] st1
         = (st2, Json 200 r2)
     \<and> (\<forall>k. k \<noteq> ''updatedAt'' \<longrightarrow> r1 k = r2 k)
     \<and> r1 ''updatedAt'' = Some (getCurrentDate 0)
     \<and> r2 ''updatedAt'' = Some (getCurrentDate 1000000)"
  using put_documents_id_twice [of store_created "''u1''" _ 0
      "[''status'' \<mapsto> JStr ''authenticated'']" 1000000] store_created_u1
  by simp

text \<open>
  Claim C3. An update on an id that has a record answers with the merged record (the body
  laid over the existing record, \<^verbatim>\<open>updatedAt\<close> the date of the call) and stores it under the
  same id. The handler does not: it inserts under \<^verbatim>\<open>document.id\<close> of the record it found,
  not under the id of the path. In \<open>store_renamed\<close> the record under \<open>u1\<close> carries the
  \<^verbatim>\<open>id\<close> \<open>b\<close>; \<^verbatim>\<open>PUT /documents/u1\<close> with the body \<^verbatim>\<open>{"status": "authenticated"}\<close> leaves
  the record under \<open>u1\<close> as it was, answers with a record that is not the one under \<open>u1\<close>,
  and stores the record of the response under \<open>b\<close>.
\<close>

theorem put_stores_elsewhere:
  "fst (put_documents_id ''u1'' 0 [''status'' \<mapsto> JStr ''authenticated''] store_renamed)
       (JStr ''u1'')
     = store_renamed (JStr ''u1'')
   \<and> Json 200 (the (store_renamed (JStr ''u1'')))
      \<noteq> snd (put_documents_id ''u1'' 0 [''status'' \<mapsto> JStr ''authenticated''] store_renamed)
   \<and> Json 200 (the (fst (put_documents_id ''u1'' 0 [''status'' \<mapsto> JStr ''authenticated'']
          store_renamed) (JStr ''b'')))
      = snd (put_documents_id ''u1'' 0 [''status'' \<mapsto> JStr ''authenticated''] store_renamed)"
  apply (simp add: store_renamed_def store_created_def handler_defs getCurrentDate_0 Let_def)
  apply (auto dest!: fun_cong [where x = "''status''"] simp add: map_add_def)
  done

text \<open>
  On a record that is stored under its own \<^verbatim>\<open>id\<close> the update does store under the id of the
  path: the response is the merged record, \<^verbatim>\<open>updatedAt\<close> is the date of the call, every
  other field is the body's when the body has it and the existing record's otherwise, and the
  merged record replaces the existing one.
\<close>

lemma put_documents_id_merge:
  assumes "st (JStr documentId) = Some document"
      and "get_prop document ''id'' = JStr documentId"
  shows "\<exists>updated. put_documents_id documentId clock body st
            = (st(JStr documentId \<mapsto> updated), Json 200 updated)
     \<and> updated ''updatedAt'' = Some (getCurrentDate clock)
     \<and> (\<forall>k. k \<noteq> ''updatedAt'' \<longrightarrow>
            updated k = (case body k of Some v \<Rightarrow> Some v | None \<Rightarrow> document k))"
  using assms
  by (simp add: put_documents_id_def storage_get_def storage_insert_def Let_def)
     (simp add: spread_def map_add_def split: option.split)

text \<open>
  Claim C10. A successful update leaves the set of keys of the store unchanged: it only
  replaces the value under the key of the record it updates. The handler does not, for the
  same reason as above (the insert under \<^verbatim>\<open>document.id\<close>): in \<open>store_renamed\<close> the key
  \<open>b\<close> is absent and \<open>u1\<close> is present, and \<^verbatim>\<open>PUT /documents/u1\<close> with an empty body
  succeeds and adds the key \<open>b\<close>.
\<close>

theorem put_adds_key:
  "store_renamed (JStr ''b'') = None
   \<and> fst (put_documents_id ''u1'' 0 Map.empty store_renamed) (JStr ''b'') \<noteq> None
   \<and> store_renamed (JStr ''u1'') \<noteq> None"
  by (simp add: store_renamed_def store_created_def handler_defs getCurrentDate_0 Let_def)

text \<open>
  On a record that is stored under its own \<^verbatim>\<open>id\<close> the set of keys is unchanged and every
  other key keeps its value, also when the body has an \<^verbatim>\<open>id\<close> of its own: the record under
  the path id then carries the body's \<^verbatim>\<open>id\<close>.
\<close>

lemma put_documents_id_keys:
  assumes "st (JStr documentId) = Some document"
      and "get_prop document ''id'' = JStr documentId"
  shows "dom (fst (put_documents_id documentId clock body st)) = dom st
       \<and> (\<forall>k. k \<noteq> JStr documentId \<longrightarrow>
             fst (put_documents_id documentId clock body st) k = st k)
       \<and> (\<forall>v. body ''id'' = Some v \<longrightarrow>
             (\<exists>d. fst (put_documents_id documentId clock body st) (JStr documentId) = Some d
                \<and> get_prop d ''id'' = v))"
  using assms
  by (auto simp add: handler_defs Let_def map_add_def split: option.splits if_splits)

section \<open>Delete\<close>

text \<open>
  Claim C8. A delete on an id that has a record answers with that record as it was stored
  and removes it, so that a get by the same id on the store left behind answers 404; a delete
  on an id that has no record answers 400 with the not-found text.
\<close>

theorem delete_documents_id_removes:
  "(st (JStr documentId) = Some document \<longrightarrow>
      delete_documents_id documentId st = (st(JStr documentId := None), Json 200 document)
    \<and> get_documents_id documentId (fst (delete_documents_id documentId st))
        = (st(JStr documentId := None),
           Send 404 (''Document with id='' @ documentId @ '' not found.'')))
   \<and> (st (JStr documentId) = None \<longrightarrow>
      delete_documents_id documentId st
        = (st, Send 400 (''Couldn't delete document with id='' @ documentId @ ''. Not found.'')))"
  by (auto simp add: handler_defs)

theorem delete_documents_id_removes_witness:
  "delete_documents_id ''u1'' store_created
     = (store_created(JStr ''u1'' := None),
        Json 200 [''id'' \<mapsto> JStr ''u1'', ''createdAt'' \<mapsto> JDate (Some 0),
                  ''updatedAt'' \<mapsto> JNull, ''status'' \<mapsto> JStr ''pending''])
   \<and> get_documents_id ''u1'' (fst (delete_documents_id ''u1'' store_created))
     = (store_created(JStr ''u1'' := None), Send 404 ''Document with id=u1 not found.'')
   \<and> delete_documents_id ''u1'' Map.empty
     = (Map.empty, Send 400 ''Couldn't delete document with id=u1. Not found.'')"
proof -
  note d = delete_documents_id_removes [of store_created "''u1''"
      "[''id'' \<mapsto> JStr ''u1'', ''createdAt'' \<mapsto> JDate (Some 0),
        ''updatedAt'' \<mapsto> JNull, ''status'' \<mapsto> JStr ''pending'']",
      THEN conjunct1, THEN mp, OF store_created_u1]
  have 1: "delete_documents_id ''u1'' store_created
     = (store_created(JStr ''u1'' := None),
        Json 200 [''id'' \<mapsto> JStr ''u1'', ''createdAt'' \<mapsto> JDate (Some 0),
                  ''updatedAt'' \<mapsto> JNull, ''status'' \<mapsto> JStr ''pending''])"
    using d [THEN conjunct1] by simp
  have 2: "get_documents_id ''u1'' (fst (delete_documents_id ''u1'' store_created))
     = (store_created(JStr ''u1'' := None), Send 404 ''Document with id=u1 not found.'')"
    using d [THEN conjunct2] by simp
  have 3: "delete_documents_id ''u1'' Map.empty
     = (Map.empty, Send 400 ''Couldn't delete document with id=u1. Not found.'')"
    using delete_documents_id_removes [of Map.empty "''u1''", THEN conjunct2] by simp
  from 1 2 3 show ?thesis by (intro conjI)
qed

section \<open>Invariants of request sequences\<close>

lemma run_append: "run (xs @ ys) st = run ys (run xs st)"
  by (induction xs arbitrary: st) simp_all

lemma uuids_append: "uuids (xs @ ys) = uuids xs @ uuids ys"
  by (induction xs rule: uuids.induct) simp_all

lemma post_documents_fst:
  assumes "body ''id'' = None"
  shows "\<exists>doc. fst (post_documents uuid clock body st) = st(JStr uuid \<mapsto> doc)
            \<and> get_prop doc ''id'' = JStr uuid"
proof (intro exI conjI)
  let ?doc = "spread body [''id'' \<mapsto> JStr uuid, ''createdAt'' \<mapsto> getCurrentDate clock,
      ''updatedAt'' \<mapsto> JNull, ''status'' \<mapsto> JStr ''pending'']"
  show k: "get_prop ?doc ''id'' = JStr uuid"
    using assms by (simp add: get_prop_def spread_def map_add_def)
  show "fst (post_documents uuid clock body st) = st(JStr uuid \<mapsto> ?doc)"
    by (simp add: post_documents_def storage_insert_def Let_def k)
qed

lemma put_documents_id_fst:
  assumes "keyed_by_id st" "body ''id'' = None" "st (JStr documentId) = Some d"
  shows "\<exists>d'. fst (put_documents_id documentId clock body st) = st(JStr documentId \<mapsto> d')
            \<and> get_prop d' ''id'' = JStr documentId
            \<and> (body ''createdAt'' = None \<longrightarrow> d' ''createdAt'' = d ''createdAt'')"
proof (intro exI conjI)
  let ?d = "(spread body (spread d Map.empty))(''updatedAt'' \<mapsto> getCurrentDate clock)"
  have k: "get_prop d ''id'' = JStr documentId"
    using assms(1,3) by (simp add: keyed_by_id_def)
  show "fst (put_documents_id documentId clock body st) = st(JStr documentId \<mapsto> ?d)"
    using assms(3) by (simp add: put_documents_id_def storage_get_def storage_insert_def Let_def k)
  show "get_prop ?d ''id'' = JStr documentId"
    using k assms(2) by (simp add: get_prop_def spread_def map_add_def)
  show "body ''createdAt'' = None \<longrightarrow> ?d ''createdAt'' = d ''createdAt''"
    by (simp add: spread_def map_add_def)
qed

lemma put_documents_id_fst_absent:
  assumes "st (JStr documentId) = None"
  shows "fst (put_documents_id documentId clock body st) = st"
  using assms by (simp add: put_documents_id_def storage_get_def)

lemma delete_documents_id_fst:
  "fst (delete_documents_id documentId st) = st(JStr documentId := None)"
  by (simp add: delete_documents_id_def storage_remove_def split: option.split)

lemma get_documents_id_fst: "fst (get_documents_id documentId st) = st"
  by (simp add: get_documents_id_def split: option.split)

lemma handle_pointwise:
  assumes "keyed_by_id st" "body_lacks ''id'' r"
  shows "fst (handle r st) k = st k
       \<or> fst (handle r st) k = None
       \<or> (\<exists>d'. fst (handle r st) k = Some d' \<and> get_prop d' ''id'' = k
             \<and> (k \<in> JStr ` set (uuids [r])
                \<or> (\<exists>d. st k = Some d
                      \<and> (update_lacks ''createdAt'' r \<longrightarrow> d' ''createdAt'' = d ''createdAt''))))"
proof (cases r)
  case (POST_documents uuid clock body)
  with assms(2) post_documents_fst [of body uuid clock st]
  obtain doc where "fst (handle r st) = st(JStr uuid \<mapsto> doc)" "get_prop doc ''id'' = JStr uuid"
    by auto
  with POST_documents show ?thesis
    by (cases "k = JStr uuid") simp_all
next
  case (GET_documents_id documentId)
  then show ?thesis by (simp add: get_documents_id_fst)
next
  case (PUT_documents_id documentId clock body)
  show ?thesis
  proof (cases "st (JStr documentId)")
    case None
    then show ?thesis
      using PUT_documents_id by (simp add: put_documents_id_fst_absent)
  next
    case (Some d)
    from put_documents_id_fst [OF assms(1) _ Some, of body clock] assms(2) PUT_documents_id
    obtain d' where "fst (handle r st) = st(JStr documentId \<mapsto> d')"
      "get_prop d' ''id'' = JStr documentId"
      "body ''createdAt'' = None \<longrightarrow> d' ''createdAt'' = d ''createdAt''"
      by auto
    with Some PUT_documents_id show ?thesis
      by (cases "k = JStr documentId") simp_all
  qed
next
  case (DELETE_documents_id documentId)
  then show ?thesis
    by (cases "k = JStr documentId") (simp_all add: delete_documents_id_fst)
qed

lemma handle_keyed:
  assumes "keyed_by_id st" "body_lacks ''id'' r"
  shows "keyed_by_id (fst (handle r st))"
  unfolding keyed_by_id_def
proof (intro allI impI)
  fix k d
  assume "fst (handle r st) k = Some d"
  with handle_pointwise [OF assms, of k] assms(1) show "get_prop d ''id'' = k"
    by (auto simp add: keyed_by_id_def)
qed

lemma handle_dom:
  assumes "keyed_by_id st" "body_lacks ''id'' r"
  shows "dom (fst (handle r st)) \<subseteq> dom st \<union> JStr ` set (uuids [r])"
proof
  fix k
  assume "k \<in> dom (fst (handle r st))"
  then obtain d where "fst (handle r st) k = Some d" by auto
  with handle_pointwise [OF assms, of k] show "k \<in> dom st \<union> JStr ` set (uuids [r])"
    by auto
qed

lemma run_keyed_dom:
  assumes "keyed_by_id st" "list_all (body_lacks ''id'') rs"
  shows "keyed_by_id (run rs st) \<and> dom (run rs st) \<subseteq> dom st \<union> JStr ` set (uuids rs)"
  using assms
proof (induction rs arbitrary: st)
  case Nil
  then show ?case by simp
next
  case (Cons r rs)
  have k: "keyed_by_id (fst (handle r st))"
    using Cons.prems by (simp add: handle_keyed)
  have d: "dom (fst (handle r st)) \<subseteq> dom st \<union> JStr ` set (uuids [r])"
    using Cons.prems by (simp add: handle_dom)
  have u: "set (uuids (r # rs)) = set (uuids [r]) \<union> set (uuids rs)"
    using uuids_append [of "[r]" rs] by simp
  have "keyed_by_id (run rs (fst (handle r st)))"
    and "dom (run rs (fst (handle r st))) \<subseteq> dom (fst (handle r st)) \<union> JStr ` set (uuids rs)"
    using Cons.IH [OF k] Cons.prems(2) by simp_all
  with d show ?case
    unfolding u by (simp add: image_Un) blast
qed

lemma handle_createdAt:
  assumes "keyed_by_id st" "body_lacks ''id'' r" "update_lacks ''createdAt'' r"
      and "k \<notin> JStr ` set (uuids [r])" "st k = Some d" "fst (handle r st) k = Some d'"
  shows "d' ''createdAt'' = d ''createdAt''"
  using handle_pointwise [OF assms(1,2), of k] assms(3-)
  by auto

lemma handle_stays_absent:
  assumes "keyed_by_id st" "body_lacks ''id'' r" "k \<notin> JStr ` set (uuids [r])" "st k = None"
  shows "fst (handle r st) k = None"
  using handle_dom [OF assms(1,2)] assms(3,4) by (auto simp add: domIff)

lemma run_stays_absent:
  assumes "keyed_by_id st" "list_all (body_lacks ''id'') rs" "k \<notin> JStr ` set (uuids rs)" "st k = None"
  shows "run rs st k = None"
  using run_keyed_dom [OF assms(1,2)] assms(3,4) by (auto simp add: domIff)

lemma run_createdAt:
  assumes "keyed_by_id st"
      and "list_all (body_lacks ''id'') rs" and "list_all (update_lacks ''createdAt'') rs"
      and "k \<notin> JStr ` set (uuids rs)"
      and "st k = Some d" and "run rs st k = Some d'"
  shows "d' ''createdAt'' = d ''createdAt''"
  using assms
proof (induction rs arbitrary: st d)
  case Nil
  then show ?case by simp
next
  case (Cons r rs)
  let ?st = "fst (handle r st)"
  have u: "set (uuids (r # rs)) = set (uuids [r]) \<union> set (uuids rs)"
    using uuids_append [of "[r]" rs] by simp
  have k1: "k \<notin> JStr ` set (uuids [r])" and k2: "k \<notin> JStr ` set (uuids rs)"
    using Cons.prems(4) unfolding u by auto
  have keyed: "keyed_by_id ?st"
    using Cons.prems by (simp add: handle_keyed)
  show ?case
  proof (cases "?st k")
    case None
    then have "run rs ?st k = None"
      using run_stays_absent [OF keyed _ k2] Cons.prems(2) by simp
    with Cons.prems(6) show ?thesis by simp
  next
    case (Some d1)
    have "d1 ''createdAt'' = d ''createdAt''"
      using handle_createdAt [OF Cons.prems(1) _ _ k1 Cons.prems(5) Some] Cons.prems(2,3) by simp
    moreover have "d' ''createdAt'' = d1 ''createdAt''"
      using Cons.IH [OF keyed _ _ k2 Some] Cons.prems(2,3,6) by simp
    ultimately show ?thesis by simp
  qed
qed




text \<open>
  The condition on the bodies of the earlier requests: in \<open>store_renamed\<close> the record under
  \<open>u1\<close> carries the \<^verbatim>\<open>id\<close> \<open>b\<close>, which is no key of the store; a create with an empty
  body for which the generator returns \<open>b\<close> answers with the \<^verbatim>\<open>id\<close> of that record.
\<close>

lemma post_meets_renamed_id:
  "get_prop (the (store_renamed (JStr ''u1''))) ''id'' = JStr ''b''
   \<and> store_renamed (JStr ''b'') = None
   \<and> snd (post_documents ''b'' 0 Map.empty store_renamed)
       = Json 200 [''id'' \<mapsto> JStr ''b'', ''createdAt'' \<mapsto> JDate (Some 0),
                   ''updatedAt'' \<mapsto> JNull, ''status'' \<mapsto> JStr ''pending'']"
  by (simp add: store_renamed_def store_created_def handler_defs getCurrentDate_0 Let_def)

text \<open>
  Claim C2, as amended. An update whose body has no \<^verbatim>\<open>createdAt\<close> field answers with a
  record whose \<^verbatim>\<open>createdAt\<close> is that of the record it found. And along a sequence of
  requests whose bodies have no \<^verbatim>\<open>id\<close> field and whose update bodies have no
  \<^verbatim>\<open>createdAt\<close> field, started in a store in which every record is stored under its own
  \<^verbatim>\<open>id\<close>, a record whose key the generator does not return again keeps its \<^verbatim>\<open>createdAt\<close>
  for as long as it is stored. The condition on the bodies is needed: the body is spread over
  the existing record, so a \<^verbatim>\<open>createdAt\<close> in the body replaces the stored one.
\<close>

theorem createdAt_kept:
  "(st (JStr documentId) = Some document \<and> body ''createdAt'' = None \<longrightarrow>
      (\<exists>updated. snd (put_documents_id documentId clock body st) = Json 200 updated
         \<and> updated ''createdAt'' = document ''createdAt''))
   \<and> (keyed_by_id st \<and> list_all (body_lacks ''id'') rs
        \<and> list_all (update_lacks ''createdAt'') rs
        \<and> k \<notin> JStr ` set (uuids rs) \<and> st k = Some d \<and> run rs st k = Some d' \<longrightarrow>
      d' ''createdAt'' = d ''createdAt'')"
proof (intro conjI impI)
  assume "st (JStr documentId) = Some document \<and> body ''createdAt'' = None"
  then show "\<exists>updated. snd (put_documents_id documentId clock body st) = Json 200 updated
         \<and> updated ''createdAt'' = document ''createdAt''"
    by (simp add: handler_defs Let_def map_add_def)
next
  assume "keyed_by_id st \<and> list_all (body_lacks ''id'') rs
        \<and> list_all (update_lacks ''createdAt'') rs
        \<and> k \<notin> JStr ` set (uuids rs) \<and> st k = Some d \<and> run rs st k = Some d'"
  then show "d' ''createdAt'' = d ''createdAt''"
    using run_createdAt [of st rs k d d'] by simp
qed

theorem createdAt_kept_witness:
  "(\<exists>updated. snd (put_documents_id ''u1'' 5000000 [''status'' \<mapsto> JStr ''authenticated'']
                     store_created) = Json 200 updated
       \<and> updated ''createdAt'' = Some (JDate (Some 0)))
   \<and> (\<exists>d'. run [PUT_documents_id ''u1'' 5000000 [''status'' \<mapsto> JStr ''authenticated''],
                 POST_documents ''u2'' 6000000 [''name'' \<mapsto> JStr ''B''],
                 PUT_documents_id ''u1'' 7000000 [''name'' \<mapsto> JStr ''A'']]
              store_created (JStr ''u1'') = Some d'
         \<and> d' ''createdAt'' = Some (JDate (Some 0)))"
proof -
  let ?d = "[''id'' \<mapsto> JStr ''u1'', ''createdAt'' \<mapsto> JDate (Some 0),
             ''updatedAt'' \<mapsto> JNull, ''status'' \<mapsto> JStr ''pending'']"
  let ?b = "[''status'' \<mapsto> JStr ''authenticated'']"
  let ?rs = "[PUT_documents_id ''u1'' 5000000 ?b,
              POST_documents ''u2'' 6000000 [''name'' \<mapsto> JStr ''B''],
              PUT_documents_id ''u1'' 7000000 [''name'' \<mapsto> JStr ''A'']]"
  have keyed: "keyed_by_id store_created"
    by (simp add: keyed_by_id_def store_created_def handler_defs Let_def)
  have "run ?rs store_created (JStr ''u1'') \<noteq> None"
    by (simp add: store_created_def handler_defs Let_def)
  then obtain d' where d': "run ?rs store_created (JStr ''u1'') = Some d'"
    by (cases "run ?rs store_created (JStr ''u1'')") simp_all
  note c = createdAt_kept [of store_created "''u1''" ?d ?b 5000000 ?rs "JStr ''u1''" ?d d']
  have 1: "\<exists>updated. snd (put_documents_id ''u1'' 5000000 ?b store_created) = Json 200 updated
       \<and> updated ''createdAt'' = Some (JDate (Some 0))"
    using c [THEN conjunct1] store_created_u1 by simp
  have "d' ''createdAt'' = Some (JDate (Some 0))"
    using c [THEN conjunct2] keyed store_created_u1 d' by simp
  with d' have 2: "\<exists>d'. run ?rs store_created (JStr ''u1'') = Some d'
       \<and> d' ''createdAt'' = Some (JDate (Some 0))"
    by (intro exI conjI)
  from 1 2 show ?thesis by (intro conjI)
qed

theorem put_overwrites_createdAt:
  "get_prop (the (store_created (JStr ''u1''))) ''createdAt'' = JDate (Some 0)
   \<and> get_prop (the (fst (put_documents_id ''u1'' 0 [''createdAt'' \<mapsto> JStr ''1999'']
          store_created) (JStr ''u1''))) ''createdAt'' = JStr ''1999''"
  by (simp add: store_created_def handler_defs getCurrentDate_0 Let_def)

section \<open>The scale of the timestamp\<close>

lemma floor_log2_bounds:
  assumes "0 < x"
  shows "2 powi (floor_log2 x) \<le> x \<and> x < 2 powi (floor_log2 x + 1)"
proof (cases "1 \<le> x")
  case True
  define n where "n = \<lfloor>x\<rfloor>"
  have n: "0 < n" using True by (simp add: n_def)
  have b: "1 \<le> bitlen n"
    using n bitlen_nonneg [of n] bitlen_eq_zero_iff [of n] by linarith
  have fl: "floor_log2 x = bitlen n - 1"
    using True by (simp add: floor_log2_def n_def)
  from bitlen_bounds [OF n] have lo: "2 ^ nat (bitlen n - 1) \<le> n" and hi: "n < 2 ^ nat (bitlen n)"
    by simp_all
  have "(2::rat) powi (bitlen n - 1) = of_int (2 ^ nat (bitlen n - 1))"
    using b by (simp add: power_int_def)
  also have "\<dots> \<le> of_int n" using lo by (simp only: of_int_le_iff)
  also have "\<dots> \<le> x" by (simp add: n_def)
  finally have 1: "2 powi (floor_log2 x) \<le> x" by (simp add: fl)
  have "n + 1 \<le> 2 ^ nat (bitlen n)" using hi by simp
  then have "(of_int (n + 1) :: rat) \<le> of_int (2 ^ nat (bitlen n))"
    by (simp only: of_int_le_iff)
  moreover have "x < of_int (n + 1)" unfolding n_def by linarith
  moreover have "(2::rat) powi (bitlen n - 1 + 1) = of_int (2 ^ nat (bitlen n))"
    using b by (simp add: power_int_def)
  ultimately have 2: "x < 2 powi (floor_log2 x + 1)" by (simp add: fl)
  from 1 2 show ?thesis ..
next
  case False
  define y where "y = 1 / x"
  define m where "m = \<lceil>y\<rceil> - 1"
  have y: "1 < y" using False assms by (simp add: y_def)
  have m: "0 < m" using y by (simp add: m_def)
  have b: "1 \<le> bitlen m"
    using m bitlen_nonneg [of m] bitlen_eq_zero_iff [of m] by linarith
  have fl: "floor_log2 x = - bitlen m"
    using False by (simp add: floor_log2_def m_def y_def)
  from bitlen_bounds [OF m] have lo: "2 ^ nat (bitlen m - 1) \<le> m" and hi: "m < 2 ^ nat (bitlen m)"
    by simp_all
  have my: "of_int m < y" "y \<le> of_int (m + 1)"
    unfolding m_def by linarith+
  have "m + 1 \<le> 2 ^ nat (bitlen m)" using hi by simp
  then have "(of_int (m + 1) :: rat) \<le> of_int (2 ^ nat (bitlen m))"
    by (simp only: of_int_le_iff)
  then have "(of_int (m + 1) :: rat) \<le> 2 ^ nat (bitlen m)" by simp
  with my have yhi: "y \<le> 2 ^ nat (bitlen m)" by linarith
  have "(2::rat) ^ nat (bitlen m - 1) \<le> of_int m"
    using lo by simp
  with my have ylo: "2 ^ nat (bitlen m - 1) < y" by linarith
  have x: "x = 1 / y" using assms by (simp add: y_def)
  have y0: "0 < y" using y by simp
  have p1: "(2::rat) powi (- bitlen m) = 1 / 2 ^ nat (bitlen m)"
    using b by (simp add: power_int_def inverse_eq_divide power_one_over)
  have p2: "(2::rat) powi (- bitlen m + 1) = 1 / 2 ^ nat (bitlen m - 1)"
    using b by (simp add: power_int_def inverse_eq_divide power_one_over nat_diff_distrib)
  have "1 / 2 ^ nat (bitlen m) \<le> x"
    using yhi y0 unfolding x by (simp add: field_simps)
  then have 1: "2 powi (floor_log2 x) \<le> x"
    unfolding fl p1 .
  have "x < 1 / 2 ^ nat (bitlen m - 1)"
    using ylo y0 unfolding x by (simp add: field_simps)
  then have 2: "x < 2 powi (floor_log2 x + 1)"
    unfolding fl p2 .
  from 1 2 show ?thesis ..
qed

lemma floor_log2_less:
  assumes "0 < x" "x < 2 powi k"
  shows "floor_log2 x < k"
proof (rule ccontr)
  assume "\<not> floor_log2 x < k"
  then have "(2::rat) powi k \<le> 2 powi (floor_log2 x)"
    by (intro power_int_increasing) simp_all
  with floor_log2_bounds [OF assms(1)] assms(2) show False by linarith
qed

lemma round_ties_even_error: "\<bar>of_int (round_ties_even y) - y\<bar> \<le> 1 / 2"
proof -
  define f where "f = \<lfloor>y\<rfloor>"
  have f: "of_int f \<le> y" "y < of_int f + 1"
    unfolding f_def by linarith+
  consider "y - of_int f < 1 / 2" | "1 / 2 < y - of_int f" | "y - of_int f = 1 / 2"
    by linarith
  then show ?thesis
  proof cases
    case 1
    then have "round_ties_even y = f"
      by (simp add: round_ties_even_def Let_def f_def)
    with f 1 show ?thesis by simp
  next
    case 2
    then have "round_ties_even y = f + 1"
      by (simp add: round_ties_even_def Let_def f_def)
    with f 2 show ?thesis by simp
  next
    case 3
    then have "round_ties_even y = f \<or> round_ties_even y = f + 1"
      by (simp add: round_ties_even_def Let_def f_def)
    with f 3 show ?thesis by auto
  qed
qed

lemma round_ties_even_of_int: "round_ties_even (of_int n) = n"
  by (simp add: round_ties_even_def)

lemma round_ties_even_ge:
  assumes "of_int n \<le> y"
  shows "n \<le> round_ties_even y"
proof -
  have "n \<le> \<lfloor>y\<rfloor>" using assms by (simp add: le_floor_iff)
  moreover have "\<lfloor>y\<rfloor> \<le> round_ties_even y"
    by (simp add: round_ties_even_def Let_def)
  ultimately show ?thesis by simp
qed

lemma round_ties_even_le:
  assumes "y \<le> of_int n"
  shows "round_ties_even y \<le> n"
proof (cases "y = of_int n")
  case True
  then show ?thesis by (simp add: round_ties_even_of_int)
next
  case False
  with assms have "y < of_int n" by simp
  then have "\<lfloor>y\<rfloor> < n" by (simp add: floor_less_iff)
  moreover have "round_ties_even y \<le> \<lfloor>y\<rfloor> + 1"
    by (simp add: round_ties_even_def Let_def)
  ultimately show ?thesis by simp
qed

lemma to_double_pos_eq:
  assumes "0 < x"
  shows "to_double x = of_int (round_ties_even (x / 2 powi (floor_log2 x - 52))) * 2 powi (floor_log2 x - 52)"
  using assms by (simp add: to_double_def Let_def)

lemma to_double_error:
  assumes "0 < x" "x < 2 powi k"
  shows "\<bar>to_double x - x\<bar> \<le> 2 powi (k - 54)"
proof -
  define e where "e = floor_log2 x - 52"
  define y where "y = x / 2 powi e"
  have p: "(0::rat) < 2 powi e" by (simp add: power_int_def)
  have x: "x = y * 2 powi e" using p by (simp add: y_def)
  have "to_double x - x = (of_int (round_ties_even y) - y) * 2 powi e"
    unfolding to_double_pos_eq [OF assms(1)] e_def [symmetric] y_def [symmetric]
    using x by (simp add: algebra_simps)
  then have "\<bar>to_double x - x\<bar> = \<bar>of_int (round_ties_even y) - y\<bar> * 2 powi e"
    using p by (simp add: abs_mult)
  also have "\<dots> \<le> (1 / 2) * 2 powi e"
    using round_ties_even_error [of y] p by (intro mult_right_mono) simp_all
  also have "\<dots> = 2 powi (e - 1)"
    by (simp add: power_int_diff)
  also have "\<dots> \<le> 2 powi (k - 54)"
    using floor_log2_less [OF assms] by (intro power_int_increasing) (simp_all add: e_def)
  finally show ?thesis .
qed

lemma scale_int:
  assumes "e \<le> 0"
  shows "\<exists>c::int. 0 < c \<and> of_int c * (2::rat) powi e = 1"
proof (intro exI conjI)
  show "(0::int) < 2 ^ nat (- e)" by simp
  show "of_int (2 ^ nat (- e)) * (2::rat) powi e = 1"
    using assms by (cases "e = 0") (simp_all add: power_int_def inverse_eq_divide power_one_over)
qed

lemma to_double_between_ints:
  assumes "0 < x" "x < 2 ^ 53"
  shows "(of_int n \<le> x \<longrightarrow> of_int n \<le> to_double x) \<and> (x \<le> of_int n \<longrightarrow> to_double x \<le> of_int n)"
proof -
  define e where "e = floor_log2 x - 52"
  define P where "P = (2::rat) powi e"
  have "x < 2 powi 53" using assms(2) by simp
  from floor_log2_less [OF assms(1) this] have e: "e \<le> 0" by (simp add: e_def)
  have p: "0 < P" by (simp add: P_def power_int_def)
  from scale_int [OF e] obtain c :: int where c: "0 < c" "of_int c * P = 1"
    unfolding P_def by blast
  have td: "to_double x = of_int (round_ties_even (x / P)) * P"
    unfolding to_double_pos_eq [OF assms(1)] e_def [symmetric] P_def ..
  have nc1: "of_int (n * c) = of_int n / P" and nc2: "of_int (n * c) * P = of_int n"
    using c(2) p by (simp_all add: field_simps)
  have 1: "of_int n \<le> to_double x" if "of_int n \<le> x"
  proof -
    have "of_int (n * c) \<le> x / P"
      unfolding nc1 using that p by (simp add: divide_right_mono)
    then have "n * c \<le> round_ties_even (x / P)"
      by (rule round_ties_even_ge)
    then have "(of_int (n * c) :: rat) \<le> of_int (round_ties_even (x / P))"
      by (simp only: of_int_le_iff)
    then have "(of_int (n * c) :: rat) * P \<le> of_int (round_ties_even (x / P)) * P"
      using p by (intro mult_right_mono) simp_all
    then show ?thesis unfolding nc2 td .
  qed
  have 2: "to_double x \<le> of_int n" if "x \<le> of_int n"
  proof -
    have "x / P \<le> of_int (n * c)"
      unfolding nc1 using that p by (simp add: divide_right_mono)
    then have "round_ties_even (x / P) \<le> n * c"
      by (rule round_ties_even_le)
    then have "(of_int (round_ties_even (x / P)) :: rat) \<le> of_int (n * c)"
      by (simp only: of_int_le_iff)
    then have "of_int (round_ties_even (x / P)) * P \<le> (of_int (n * c) :: rat) * P"
      using p by (intro mult_right_mono) simp_all
    then show ?thesis unfolding nc2 td .
  qed
  from 1 2 show ?thesis by blast
qed

lemma to_double_of_int:
  assumes "0 \<le> n" "n < 2 ^ 53"
  shows "to_double (of_int n) = of_int n"
proof (cases "n = 0")
  case True
  then show ?thesis by (simp add: to_double_def)
next
  case False
  with assms have "(0::rat) < of_int n" "(of_int n :: rat) < 2 ^ 53" by simp_all
  from to_double_between_ints [OF this, of n] show ?thesis by simp
qed

lemma div_million_bounds:
  fixes t :: int
  shows "(of_int (t div 1000000) :: rat) \<le> of_int t / 1000000"
    and "(of_int t :: rat) / 1000000 \<le> of_int (t div 1000000) + 999999 / 1000000"
proof -
  have "(t div 1000000) * 1000000 \<le> t" "t \<le> (t div 1000000) * 1000000 + 999999"
    by simp_all
  then have "(of_int ((t div 1000000) * 1000000) :: rat) \<le> of_int t"
    "(of_int t :: rat) \<le> of_int ((t div 1000000) * 1000000 + 999999)"
    by (simp_all only: of_int_le_iff)
  then show "(of_int (t div 1000000) :: rat) \<le> of_int t / 1000000"
    and "(of_int t :: rat) / 1000000 \<le> of_int (t div 1000000) + 999999 / 1000000"
    by (simp_all add: field_simps)
qed

lemma getCurrentDate_exact:
  assumes "0 \<le> t" "t < 2 ^ 53"
  shows "getCurrentDate t = JDate (Some (t div 1000000))"
proof (cases "t = 0")
  case True
  then show ?thesis by (simp add: getCurrentDate_0)
next
  case False
  define q :: rat where "q = of_int t / 1000000"
  define k where "k = t div 1000000"
  define D where "D = to_double q"
  have N: "Number_of_bigint t = of_int t"
    using assms by (simp add: Number_of_bigint_def to_double_of_int)
  have t: "(0::rat) < of_int t" "(of_int t :: rat) < 2 ^ 53"
    using assms False by simp_all
  have q0: "0 < q" using t by (simp add: q_def)
  have "q < 2 ^ 34" using t by (simp add: q_def)
  then have q34: "q < 2 powi 34" and q53: "q < 2 ^ 53" by simp_all
  have kq: "of_int k \<le> q" "q \<le> of_int k + 999999 / 1000000"
    unfolding k_def q_def by (rule div_million_bounds)+
  have lo: "of_int k \<le> D"
    using to_double_between_ints [OF q0 q53, of k] kq(1) by (simp add: D_def)
  have "\<bar>D - q\<bar> \<le> 2 powi (34 - 54)"
    unfolding D_def by (rule to_double_error [OF q0 q34])
  moreover have "(2::rat) powi (34 - 54) = 1 / 1048576"
    by (simp add: power_int_def power_one_over)
  ultimately have "\<bar>D - q\<bar> \<le> 1 / 1048576" by (simp only:)
  with kq(2) have hi: "D < of_int k + 1" by linarith
  have fl: "\<lfloor>D\<rfloor> = k" using lo hi by (simp add: floor_eq_iff)
  have k0: "0 \<le> k" using assms by (simp add: k_def)
  then have D0: "0 \<le> D" using lo by simp
  have "of_int k \<le> (2::rat) ^ 34" using kq(1) \<open>q < 2 ^ 34\<close> by linarith
  with hi D0 have "\<bar>D\<bar> \<le> 8640000000000000" by simp
  then have "new_Date D = JDate (Some k)"
    using D0 fl by (simp add: new_Date_def)
  then show ?thesis
    by (simp add: getCurrentDate_def double_div_def N D_def q_def k_def)
qed

lemma getCurrentDate_near:
  assumes "2 ^ 53 \<le> t" "t < 2 ^ 64"
  shows "\<exists>ms. getCurrentDate t = JDate (Some ms) \<and> \<bar>ms - t div 1000000\<bar> \<le> 1"
proof -
  define x :: rat where "x = of_int t"
  define N where "N = to_double x"
  define q :: rat where "q = N / 1000000"
  define k where "k = t div 1000000"
  define D where "D = to_double q"
  have "(of_int (2 ^ 53) :: rat) \<le> of_int t" "(of_int t :: rat) < of_int (2 ^ 64)"
    using assms by (simp_all only: of_int_le_iff of_int_less_iff)
  then have x: "2 ^ 53 \<le> x" "x < 2 ^ 64" by (simp_all add: x_def)
  then have x0: "0 < x" and x64: "x < 2 powi 64" by simp_all
  have "\<bar>N - x\<bar> \<le> 2 powi (64 - 54)"
    unfolding N_def by (rule to_double_error [OF x0 x64])
  then have Nx: "\<bar>N - x\<bar> \<le> 1024" by simp
  have q0: "0 < q" using Nx x by (simp add: q_def)
  have "q < 2 ^ 46" using Nx x by (simp add: q_def)
  then have q46: "q < 2 powi 46" by simp
  have "\<bar>D - q\<bar> \<le> 2 powi (46 - 54)"
    unfolding D_def by (rule to_double_error [OF q0 q46])
  moreover have "(2::rat) powi (46 - 54) = 1 / 256"
    by (simp add: power_int_def power_one_over)
  ultimately have Dq: "\<bar>D - q\<bar> \<le> 1 / 256" by (simp only:)
  have kx: "of_int k \<le> x / 1000000" "x / 1000000 \<le> of_int k + 999999 / 1000000"
    unfolding k_def x_def by (rule div_million_bounds)+
  have qx: "\<bar>q - x / 1000000\<bar> \<le> 1024 / 1000000"
    using Nx by (simp add: q_def abs_le_iff field_simps)
  have "of_int k - 1 \<le> D" and "D < of_int k + 2"
    using Dq qx kx by linarith+
  then have lo: "of_int (k - 1) \<le> D" and hi: "D < of_int (k + 2)"
    by simp_all
  have "of_int (k - 1) \<le> \<lfloor>D\<rfloor>" "\<lfloor>D\<rfloor> < k + 2"
    using lo hi by (simp_all only: le_floor_iff floor_less_iff) simp_all
  then have fl: "\<bar>\<lfloor>D\<rfloor> - k\<bar> \<le> 1" by simp
  have "2 ^ 53 div 1000000 \<le> k"
    unfolding k_def using assms(1) by (intro zdiv_mono1) simp_all
  then have k1: "1 \<le> k" by simp
  then have D0: "0 \<le> D" using lo by simp
  have "k \<le> 2 ^ 64 div 1000000"
    unfolding k_def using assms(2) by (intro zdiv_mono1) simp_all
  then have "k \<le> 18446744073709" by simp
  then have "(of_int k :: rat) \<le> of_int 18446744073709" by (simp only: of_int_le_iff)
  with hi D0 have "\<bar>D\<bar> \<le> 8640000000000000" by simp
  then have "new_Date D = JDate (Some \<lfloor>D\<rfloor>)"
    using D0 by (simp add: new_Date_def)
  then have "getCurrentDate t = JDate (Some \<lfloor>D\<rfloor>)"
    by (simp add: getCurrentDate_def double_div_def Number_of_bigint_def D_def q_def N_def x_def)
  with fl show ?thesis unfolding k_def by blast
qed

lemma double_div_reading:
  "double_div (Number_of_bigint 1699999999999999999) 1000000 = 1700000000000"
  by code_simp

text \<open>
  Claim C9, as amended. The date that \<^verbatim>\<open>getCurrentDate\<close> makes, and that a create stores in
  \<^verbatim>\<open>createdAt\<close> (when the body has no \<^verbatim>\<open>createdAt\<close>) and an update in \<^verbatim>\<open>updatedAt\<close>, is the
  clock's nanoseconds converted to a double, divided by 1,000,000 as doubles and cut to whole
  milliseconds. For a clock reading below \<open>2 ^ 53\<close> that is the integer quotient of the
  nanoseconds by 1,000,000; for every reading below \<open>2 ^ 64\<close> it is within one millisecond
  of that quotient. The bound \<open>2 ^ 53\<close> is needed for the exact quotient: the conversion to
  a double rounds a larger reading (to a multiple of 256 for the readings of these years),
  which can cross a millisecond.
\<close>

theorem getCurrentDate_scale:
  "(0 \<le> clock \<and> clock < 2 ^ 53 \<longrightarrow> getCurrentDate clock = JDate (Some (clock div 1000000)))
   \<and> (0 \<le> clock \<and> clock < 2 ^ 64 \<longrightarrow>
        (\<exists>ms. getCurrentDate clock = JDate (Some ms) \<and> \<bar>ms - clock div 1000000\<bar> \<le> 1))
   \<and> (body ''createdAt'' = None \<longrightarrow>
        (\<exists>document. snd (post_documents uuid clock body st) = Json 200 document
           \<and> document ''createdAt'' = Some (getCurrentDate clock)))
   \<and> (st (JStr documentId) = Some d \<longrightarrow>
        (\<exists>updated. snd (put_documents_id documentId clock body st) = Json 200 updated
           \<and> updated ''updatedAt'' = Some (getCurrentDate clock)))"
proof (intro conjI impI)
  assume "0 \<le> clock \<and> clock < 2 ^ 53"
  then show "getCurrentDate clock = JDate (Some (clock div 1000000))"
    by (simp add: getCurrentDate_exact)
next
  assume a: "0 \<le> clock \<and> clock < 2 ^ 64"
  show "\<exists>ms. getCurrentDate clock = JDate (Some ms) \<and> \<bar>ms - clock div 1000000\<bar> \<le> 1"
  proof (cases "clock < 2 ^ 53")
    case True
    with a have "getCurrentDate clock = JDate (Some (clock div 1000000))"
      by (simp add: getCurrentDate_exact)
    then show ?thesis by simp
  next
    case False
    with a show ?thesis by (intro getCurrentDate_near) simp_all
  qed
next
  assume "body ''createdAt'' = None"
  then show "\<exists>document. snd (post_documents uuid clock body st) = Json 200 document
           \<and> document ''createdAt'' = Some (getCurrentDate clock)"
    by (simp add: handler_defs Let_def map_add_def)
next
  assume "st (JStr documentId) = Some d"
  then show "\<exists>updated. snd (put_documents_id documentId clock body st) = Json 200 updated
           \<and> updated ''updatedAt'' = Some (getCurrentDate clock)"
    by (simp add: handler_defs Let_def)
qed

theorem getCurrentDate_scale_witness:
  "getCurrentDate 1700000000000000 = JDate (Some 1700000000)
   \<and> (\<exists>ms. getCurrentDate 1699999999999999999 = JDate (Some ms) \<and> \<bar>ms - 1699999999999\<bar> \<le> 1)
   \<and> (\<exists>document. snd (post_documents ''u2'' 1700000000000000 [''name'' \<mapsto> JStr ''A'']
                      store_created) = Json 200 document
        \<and> document ''createdAt'' = Some (JDate (Some 1700000000)))
   \<and> (\<exists>updated. snd (put_documents_id ''u1'' 1700000000000000 [''name'' \<mapsto> JStr ''A'']
                      store_created) = Json 200 updated
        \<and> updated ''updatedAt'' = Some (JDate (Some 1700000000)))"
proof -
  note s = getCurrentDate_scale [of 1700000000000000 "[''name'' \<mapsto> JStr ''A'']" _
      store_created "''u1''"]
  have 1: "getCurrentDate 1700000000000000 = JDate (Some 1700000000)"
    using s [THEN conjunct1] by simp
  have 2: "\<exists>ms. getCurrentDate 1699999999999999999 = JDate (Some ms)
      \<and> \<bar>ms - 1699999999999\<bar> \<le> 1"
    using getCurrentDate_scale [of 1699999999999999999, THEN conjunct2, THEN conjunct1]
    by simp
  have 3: "\<exists>document. snd (post_documents ''u2'' 1700000000000000 [''name'' \<mapsto> JStr ''A'']
                      store_created) = Json 200 document
        \<and> document ''createdAt'' = Some (JDate (Some 1700000000))"
    using s [of "''u2''", THEN conjunct2, THEN conjunct2, THEN conjunct1] 1 by simp
  have 4: "\<exists>updated. snd (put_documents_id ''u1'' 1700000000000000 [''name'' \<mapsto> JStr ''A'']
                      store_created) = Json 200 updated
        \<and> updated ''updatedAt'' = Some (JDate (Some 1700000000))"
    using s [THEN conjunct2, THEN conjunct2, THEN conjunct2] store_created_u1 1 by simp
  from 1 2 3 4 show ?thesis by (intro conjI)
qed

theorem getCurrentDate_rounds:
  "getCurrentDate 1699999999999999999 = JDate (Some 1700000000000)
   \<and> (1699999999999999999 :: int) div 1000000 = 1699999999999
   \<and> (0 :: int) \<le> 1699999999999999999 \<and> (1699999999999999999 :: int) < 2 ^ 64"
  by (simp add: getCurrentDate_def new_Date_def double_div_reading)

end
